theory Spec2Isabelle
  imports Main "HOL-Library.Word"
begin

unbundle bit_operations_syntax

section \<open>JavaScript values\<close>

text \<open>
  The configuration reaches the program as parsed JSON, so a value is one of the JSON
  shapes, or \<open>undefined\<close>. Numbers are the integer-valued ones (MIDI notes, channels and
  bytes are integers); fractions, NaN and the infinities are outside this development.
  An object is the list of its own properties, looked up by name with \<open>map_of\<close>.
\<close>

datatype jsval =
    JUndefined
  | JNull
  | JBool bool
  | JNum int
  | JStr string
  | JArr "jsval list"
  | JObj "(string \<times> jsval) list"

datatype js_error = TypeError | SyntaxError | ReferenceError

text \<open>
  Property read \<open>v.name\<close>. Reading a property of \<open>undefined\<close> or \<open>null\<close> throws a
  TypeError. The names read by the program (\<open>type\<close>, \<open>midiFrom\<close>, \<open>midiTo\<close>, \<open>midi\<close>,
  \<open>channel\<close>) are not defined on any built-in prototype, so on a boolean, a number, a
  string or an array the read gives \<open>undefined\<close>, and on an object it gives the own
  property when there is one.
\<close>

fun get_prop :: "jsval \<Rightarrow> string \<Rightarrow> js_error + jsval" where
  "get_prop JUndefined name = Inl TypeError"
| "get_prop JNull name = Inl TypeError"
| "get_prop (JObj props) name =
     (case map_of props name of None \<Rightarrow> Inr JUndefined | Some v \<Rightarrow> Inr v)"
| "get_prop v name = Inr JUndefined"

text \<open>Truthiness, for \<open>x || y\<close> and \<open>!x\<close>.\<close>

fun truthy :: "jsval \<Rightarrow> bool" where
  "truthy JUndefined = False"
| "truthy JNull = False"
| "truthy (JBool b) = b"
| "truthy (JNum n) = (n \<noteq> 0)"
| "truthy (JStr s) = (s \<noteq> [])"
| "truthy (JArr xs) = True"
| "truthy (JObj props) = True"

text \<open>
  \<open>ToInt32\<close> on an integer: the value modulo \<open>2^32\<close>, read as a signed 32-bit number.
  The operators \<open>&\<close> and \<open>|\<close> apply it to both operands first.
\<close>

definition ToInt32 :: "int \<Rightarrow> int" where
  "ToInt32 n = signed_take_bit 31 n"

definition js_and :: "int \<Rightarrow> int \<Rightarrow> int" where
  "js_and a b = ToInt32 a AND ToInt32 b"

definition js_or :: "int \<Rightarrow> int \<Rightarrow> int" where
  "js_or a b = ToInt32 a OR ToInt32 b"

section \<open>The message transformer\<close>

text \<open>
  A MIDI message is the array of numbers the transport hands over. Its length is not
  fixed (a program change has two bytes, a note message three), and destructuring
  \<open>[status, note, velocity] = message\<close> binds \<open>undefined\<close> to a name whose position is
  past the end. An entry is therefore a number or \<open>undefined\<close>.
\<close>

datatype entry = Undefined | Num int

type_synonym midi_message = "entry list"

text \<open>
  The split table is the object built by \<open>buildSplitTable\<close>: its keys are note numbers
  (the decimal strings of integers, which are in one-to-one correspondence with the
  integers), its values channel numbers.
\<close>

type_synonym split_table = "int \<rightharpoonup> int"

definition element :: "midi_message \<Rightarrow> nat \<Rightarrow> entry" where
  "element message i = (if i < length message then message ! i else Undefined)"

text \<open>\<open>x >= k\<close> and \<open>x <= k\<close>: a comparison with \<open>undefined\<close> is false.\<close>

fun js_ge :: "entry \<Rightarrow> int \<Rightarrow> bool" where
  "js_ge (Num n) k = (k \<le> n)"
| "js_ge Undefined k = False"

fun js_le :: "entry \<Rightarrow> int \<Rightarrow> bool" where
  "js_le (Num n) k = (n \<le> k)"
| "js_le Undefined k = False"

text \<open>
  \<open>splitTable.hasOwnProperty(note)\<close> followed by \<open>splitTable[note]\<close>: the own property
  stored under the note, if there is one. The key \<open>undefined\<close> is the string
  "undefined", which is no note number.
\<close>

fun own_property :: "split_table \<Rightarrow> entry \<Rightarrow> int option" where
  "own_property t (Num n) = t n"
| "own_property t Undefined = None"

text \<open>The operand of \<open>&\<close> as a number; \<open>undefined\<close> counts as 0 there (NaN becomes 0).\<close>

fun to_number :: "entry \<Rightarrow> int" where
  "to_number (Num n) = n"
| "to_number Undefined = 0"

text \<open>
  \<open>transformMidiSrc(splitTable, deltaTime, message)\<close>. The table argument is \<open>None\<close> when
  the caller passes \<open>null\<close> or \<open>undefined\<close> (the guard \<open>splitTable &&\<close>). The two debug
  events given to the monitoring function do not enter the returned message and are
  left out.
\<close>

definition transformMidiSrc :: "split_table option \<Rightarrow> 'd \<Rightarrow> midi_message \<Rightarrow> midi_message" where
  "transformMidiSrc splitTable deltaTime message =
     (let status = element message 0;
          note = element message 1;
          velocity = element message 2;
          isGenuineNoteOff = (js_ge status 128 \<and> js_le status 143);
          isNoteOn = (js_ge status 144 \<and> js_le status 159);
          isFakeNoteOff = (isNoteOn \<and> velocity = Num 0);
          mustSplitByChannel = (isNoteOn \<or> isFakeNoteOff \<or> isGenuineNoteOff)
      in case splitTable of
           None \<Rightarrow> message
         | Some t \<Rightarrow>
             if mustSplitByChannel then
               (case own_property t note of
                  None \<Rightarrow> message
                | Some channel \<Rightarrow>
                    [Num (js_or (js_and (to_number status) 240) (channel - 1)), note, velocity])
             else message)"

section \<open>The split table compiler\<close>

text \<open>
  Every diagnostic of the compiler is an event of severity \<open>warn\<close> handed to the
  monitoring function. The constructors stand for the four message templates; they
  carry the index of the entry and the entry itself (the \<open>data\<close> field).
\<close>

datatype diagnostic =
    Invalid_definitions
  | Invalid_range nat jsval
  | Invalid_values nat jsval
  | Unknown_type nat jsval

text \<open>
  The template literal of the last diagnostic converts \<open>definition.type\<close> to a string.
  For a primitive this always works. An object is converted through its \<open>toString\<close>
  method: a parsed JSON object inherits a working one unless it has an own property
  named \<open>toString\<close>, which is then not a function, and the conversion throws a
  TypeError (the inherited \<open>valueOf\<close> returns the object itself). An array is joined,
  which converts each element other than \<open>null\<close> and \<open>undefined\<close> the same way.
\<close>

fun to_string_throws :: "jsval \<Rightarrow> bool" where
  "to_string_throws (JObj props) = (map_of props ''toString'' \<noteq> None)"
| "to_string_throws (JArr xs) = (\<exists>x \<in> set xs. to_string_throws x)"
| "to_string_throws v = False"

text \<open>\<open>typeof v === "number"\<close>, giving the number.\<close>

fun as_number :: "jsval \<Rightarrow> int option" where
  "as_number (JNum n) = Some n"
| "as_number v = None"

text \<open>
  Destructuring \<open>const { a, b } = definition\<close>, used once \<open>definition.type\<close> has been
  read, that is on a value that is neither \<open>null\<close> nor \<open>undefined\<close>.
\<close>

definition field :: "jsval \<Rightarrow> string \<Rightarrow> jsval" where
  "field v name = (case get_prop v name of Inl e \<Rightarrow> JUndefined | Inr x \<Rightarrow> x)"

text \<open>The validity test of a range entry; \<open>Some\<close> carries the three numbers.\<close>

definition checked_range :: "jsval \<Rightarrow> jsval \<Rightarrow> jsval \<Rightarrow> (int \<times> int \<times> int) option" where
  "checked_range midiFrom midiTo channel =
     (case (as_number midiFrom, as_number midiTo, as_number channel) of
        (Some f, Some t, Some c) \<Rightarrow>
          if 0 \<le> f \<and> f \<le> 127 \<and> 0 \<le> t \<and> t \<le> 127 \<and> 1 \<le> c \<and> c \<le> 16 \<and> f \<le> t
          then Some (f, t, c) else None
      | _ \<Rightarrow> None)"

text \<open>The validity test of an enumeration entry.\<close>

definition checked_enumeration :: "jsval \<Rightarrow> jsval \<Rightarrow> (int list \<times> int) option" where
  "checked_enumeration midi channel =
     (case midi of
        JArr values \<Rightarrow>
          (case those (map as_number values) of
             None \<Rightarrow> None
           | Some ms \<Rightarrow>
               if list_all (\<lambda>midiValue. 0 \<le> midiValue \<and> midiValue \<le> 127) ms then
                 (case as_number channel of
                    None \<Rightarrow> None
                  | Some c \<Rightarrow> if 1 \<le> c \<and> c \<le> 16 then Some (ms, c) else None)
               else None)
      | _ \<Rightarrow> None)"

text \<open>\<open>for (let midi = midiFrom; midi <= midiTo; midi++) splitTable[midi] = channel\<close>\<close>

function range_loop :: "int \<Rightarrow> int \<Rightarrow> int \<Rightarrow> split_table \<Rightarrow> split_table" where
  "range_loop midi midiTo channel splitTable =
     (if midi \<le> midiTo
      then range_loop (midi + 1) midiTo channel (splitTable(midi \<mapsto> channel))
      else splitTable)"
  by pat_completeness auto
termination
  by (relation "measure (\<lambda>(midi, midiTo, channel, splitTable). nat (midiTo + 1 - midi))") auto

declare range_loop.simps [simp del]

text \<open>\<open>midi.forEach((midiValue) => { splitTable[midiValue] = channel })\<close>\<close>

fun enumeration_loop :: "int list \<Rightarrow> int \<Rightarrow> split_table \<Rightarrow> split_table" where
  "enumeration_loop [] channel splitTable = splitTable"
| "enumeration_loop (midiValue # rest) channel splitTable =
     enumeration_loop rest channel (splitTable(midiValue \<mapsto> channel))"

text \<open>
  The body of \<open>splitDefinitions.forEach((definition, index) => ...)\<close>, on the table
  built so far and the diagnostics emitted so far.
\<close>

fun apply_definition ::
  "jsval \<Rightarrow> nat \<Rightarrow> split_table \<times> diagnostic list \<Rightarrow> js_error + split_table \<times> diagnostic list"
where
  "apply_definition definition index (splitTable, log) =
     (case get_prop definition ''type'' of
        Inl err \<Rightarrow> Inl err
      | Inr type \<Rightarrow>
          if type = JStr ''range'' then
            (case checked_range (field definition ''midiFrom'') (field definition ''midiTo'')
                    (field definition ''channel'') of
               Some (midiFrom, midiTo, channel) \<Rightarrow>
                 Inr (range_loop midiFrom midiTo channel splitTable, log)
             | None \<Rightarrow> Inr (splitTable, log @ [Invalid_range index definition]))
          else if type = JStr ''enumeration'' then
            (case checked_enumeration (field definition ''midi'') (field definition ''channel'') of
               Some (midi, channel) \<Rightarrow> Inr (enumeration_loop midi channel splitTable, log)
             | None \<Rightarrow> Inr (splitTable, log @ [Invalid_values index definition]))
          else if to_string_throws type then Inl TypeError
          else Inr (splitTable, log @ [Unknown_type index definition]))"

declare apply_definition.simps [simp del]

text \<open>The iteration: an exception thrown by the callback ends it and leaves the function.\<close>

fun for_each :: "jsval list \<Rightarrow> nat \<Rightarrow> split_table \<times> diagnostic list
                  \<Rightarrow> js_error + split_table \<times> diagnostic list" where
  "for_each [] index st = Inr st"
| "for_each (definition # rest) index st =
     (case apply_definition definition index st of
        Inl err \<Rightarrow> Inl err
      | Inr st' \<Rightarrow> for_each rest (index + 1) st')"

text \<open>
  \<open>buildSplitTable(splitDefinitions)\<close>: \<open>Inl\<close> is the exception that leaves the function,
  \<open>Inr\<close> the returned table with the diagnostics emitted on the way.
\<close>

definition buildSplitTable :: "jsval \<Rightarrow> js_error + split_table \<times> diagnostic list" where
  "buildSplitTable splitDefinitions =
     (case splitDefinitions of
        JArr definitions \<Rightarrow>
          if definitions = [] then Inr (Map.empty, [Invalid_definitions])
          else for_each definitions 0 (Map.empty, [])
      | _ \<Rightarrow> Inr (Map.empty, [Invalid_definitions]))"

subsection \<open>The split definitions of the specification\<close>

text \<open>
  The specification's tagged variant, and what it calls a valid definition, the notes a
  definition covers and its channel. \<open>represents\<close> relates a configuration value to the
  definition it spells out; further properties of the object do not matter.
\<close>

datatype split_definition = Range int int int | Enumeration "int list" int

fun valid :: "split_definition \<Rightarrow> bool" where
  "valid (Range a b c) = (0 \<le> a \<and> a \<le> b \<and> b \<le> 127 \<and> 1 \<le> c \<and> c \<le> 16)"
| "valid (Enumeration ms c) = (list_all (\<lambda>m. 0 \<le> m \<and> m \<le> 127) ms \<and> 1 \<le> c \<and> c \<le> 16)"

fun covers :: "split_definition \<Rightarrow> int \<Rightarrow> bool" where
  "covers (Range a b c) n = (a \<le> n \<and> n \<le> b)"
| "covers (Enumeration ms c) n = (n \<in> set ms)"

fun channel_of :: "split_definition \<Rightarrow> int" where
  "channel_of (Range a b c) = c"
| "channel_of (Enumeration ms c) = c"

fun represents :: "jsval \<Rightarrow> split_definition \<Rightarrow> bool" where
  "represents (JObj props) (Range a b c) =
     (map_of props ''type'' = Some (JStr ''range'') \<and>
      map_of props ''midiFrom'' = Some (JNum a) \<and>
      map_of props ''midiTo'' = Some (JNum b) \<and>
      map_of props ''channel'' = Some (JNum c))"
| "represents (JObj props) (Enumeration ms c) =
     (map_of props ''type'' = Some (JStr ''enumeration'') \<and>
      map_of props ''midi'' = Some (JArr (map JNum ms)) \<and>
      map_of props ''channel'' = Some (JNum c))"
| "represents v d = False"

section \<open>The wildcard matcher\<close>

text \<open>
  Port names and patterns are strings of 8-bit characters. \<open>wildcardToRegex\<close> rewrites
  the pattern in three passes of \<open>replace\<close> with a one-character regular expression and
  the \<open>g\<close> flag, each of which replaces every character of a class by a string made
  from it, and hands the result, between \<open>^\<close> and \<open>$\<close>, to the \<open>RegExp\<close> constructor.
\<close>

definition replace_each :: "(char \<Rightarrow> bool) \<Rightarrow> (char \<Rightarrow> string) \<Rightarrow> string \<Rightarrow> string" where
  "replace_each in_class replacement s =
     concat (map (\<lambda>c. if in_class c then replacement c else [c]) s)"

definition backslash :: char where
  "backslash = CHR 0x5C"

text \<open>The class \<open>[.+^${}()|[\]\\]\<close> of the first pass.\<close>

definition escaped_class :: "char list" where
  "escaped_class =
     [CHR ''.'', CHR ''+'', CHR ''^'', CHR ''$'', CHR ''{'', CHR ''}'', CHR ''('', CHR '')'',
      CHR ''|'', CHR ''['', CHR '']'', backslash]"

definition escape_pattern :: "string \<Rightarrow> string" where
  "escape_pattern pattern =
     replace_each (\<lambda>c. c = CHR ''*'') (\<lambda>c. ''.*'')
       (replace_each (\<lambda>c. c = CHR ''?'') (\<lambda>c. ''.'')
          (replace_each (\<lambda>c. c \<in> set escaped_class) (\<lambda>c. [backslash, c]) pattern))"

text \<open>
  The regular expressions of this development: a sequence of terms between \<open>^\<close> and
  \<open>$\<close>, where a term is an atom or an atom under \<open>*\<close>, and an atom is one literal
  character (plain, or a syntax character after a backslash) or the dot.
  \<open>RegExp\<close> reads a source text in two passes, tokens and then terms. Every source it
  accepts is a regular expression for JavaScript with the meaning given by \<open>test\<close>; a
  source it does not accept (malformed, or using a construct outside this fragment) is
  reported as a SyntaxError.
\<close>

datatype ratom = Lit char | Dot

datatype rterm = Once ratom | Star ratom

datatype token = TAtom ratom | TStar | TEnd

definition syntax_characters :: "char list" where
  "syntax_characters =
     [CHR ''^'', CHR ''$'', backslash, CHR ''.'', CHR ''*'', CHR ''+'', CHR ''?'', CHR ''('',
      CHR '')'', CHR ''['', CHR '']'', CHR ''{'', CHR ''}'', CHR ''|'']"

fun tokens :: "string \<Rightarrow> token list option" where
  "tokens [] = Some []"
| "tokens (c # cs) =
     (if c = backslash then
        (case cs of
           [] \<Rightarrow> None
         | d # ds \<Rightarrow>
             if d \<in> set syntax_characters then map_option ((#) (TAtom (Lit d))) (tokens ds)
             else None)
      else if c = CHR ''.'' then map_option ((#) (TAtom Dot)) (tokens cs)
      else if c = CHR ''*'' then map_option ((#) TStar) (tokens cs)
      else if c = CHR ''$'' then map_option ((#) TEnd) (tokens cs)
      else if c \<in> set syntax_characters then None
      else map_option ((#) (TAtom (Lit c))) (tokens cs))"

fun terms :: "token list \<Rightarrow> rterm list option" where
  "terms [TEnd] = Some []"
| "terms (TAtom a # TStar # ts) = map_option ((#) (Star a)) (terms ts)"
| "terms (TAtom a # ts) = map_option ((#) (Once a)) (terms ts)"
| "terms ts = None"

definition RegExp :: "string \<Rightarrow> js_error + rterm list" where
  "RegExp source =
     (case source of
        [] \<Rightarrow> Inl SyntaxError
      | c # body \<Rightarrow>
          if c = CHR ''^'' then
            (case tokens body of
               None \<Rightarrow> Inl SyntaxError
             | Some ts \<Rightarrow> (case terms ts of None \<Rightarrow> Inl SyntaxError | Some r \<Rightarrow> Inr r))
          else Inl SyntaxError)"

definition wildcardToRegex :: "string \<Rightarrow> js_error + rterm list" where
  "wildcardToRegex pattern = RegExp (''^'' @ escape_pattern pattern @ ''$'')"

text \<open>
  Without the \<open>s\<close> flag the dot matches any character except a line terminator. Of the
  four line terminators, line feed and carriage return are 8-bit characters.
\<close>

definition line_terminator :: "char \<Rightarrow> bool" where
  "line_terminator c = (c = CHR 0x0A \<or> c = CHR 0x0D)"

fun atom_matches :: "ratom \<Rightarrow> char \<Rightarrow> bool" where
  "atom_matches (Lit c) x = (x = c)"
| "atom_matches Dot x = (\<not> line_terminator x)"

text \<open>
  \<open>regex.test(s)\<close> for an expression anchored at both ends: the terms have to match the
  whole string. The star is tried greedily first, then with one repetition less.
\<close>

fun test :: "rterm list \<Rightarrow> string \<Rightarrow> bool" where
  "test [] s = (s = [])"
| "test (Once a # r) [] = False"
| "test (Once a # r) (x # xs) = (atom_matches a x \<and> test r xs)"
| "test (Star a # r) [] = test r []"
| "test (Star a # r) (x # xs) = ((atom_matches a x \<and> test (Star a # r) xs) \<or> test r (x # xs))"

text \<open>
  \<open>wildcardToRegex(pattern).test(candidate)\<close>, the specification's
  \<open>matches(pattern, candidate)\<close>.
\<close>

definition matches :: "string \<Rightarrow> string \<Rightarrow> js_error + bool" where
  "matches pattern candidate =
     (case wildcardToRegex pattern of
        Inl err \<Rightarrow> Inl err
      | Inr regex \<Rightarrow> Inr (test regex candidate))"

text \<open>
  \<open>exclusions.some((pattern) => wildcardToRegex(pattern).test(portName))\<close>: the patterns
  are tried in order up to the first that matches.
\<close>

fun isExcluded :: "string \<Rightarrow> string list \<Rightarrow> js_error + bool" where
  "isExcluded portName [] = Inr False"
| "isExcluded portName (pattern # rest) =
     (case matches pattern portName of
        Inl err \<Rightarrow> Inl err
      | Inr found \<Rightarrow> if found then Inr True else isExcluded portName rest)"

text \<open>
  The term that a single character of a wildcard pattern is compiled to; it serves to
  state what \<open>wildcardToRegex\<close> returns.
\<close>

definition wildcard_term :: "char \<Rightarrow> rterm" where
  "wildcard_term c =
     (if c = CHR ''*'' then Star Dot else if c = CHR ''?'' then Once Dot else Once (Lit c))"

text \<open>The same character after the three passes of \<open>replace\<close>, and as tokens.\<close>

definition escaped_char :: "char \<Rightarrow> string" where
  "escaped_char c =
     (if c \<in> set escaped_class then [backslash, c]
      else if c = CHR ''?'' then ''.''
      else if c = CHR ''*'' then ''.*''
      else [c])"

definition char_tokens :: "char \<Rightarrow> token list" where
  "char_tokens c =
     (if c = CHR ''*'' then [TAtom Dot, TStar]
      else if c = CHR ''?'' then [TAtom Dot]
      else [TAtom (Lit c)])"

subsection \<open>The wildcard patterns of the specification\<close>

text \<open>
  The matcher in the specification's words: the pattern has to match the whole
  candidate, \<open>?\<close> stands for exactly one arbitrary character, \<open>*\<close> for zero or more
  arbitrary characters, every other character for itself.
\<close>

fun glob :: "string \<Rightarrow> string \<Rightarrow> bool" where
  "glob [] s = (s = [])"
| "glob (p # ps) [] = (p = CHR ''*'' \<and> glob ps [])"
| "glob (p # ps) (x # xs) =
     (if p = CHR ''*'' then glob (p # ps) xs \<or> glob ps (x # xs)
      else if p = CHR ''?'' then glob ps xs
      else x = p \<and> glob ps xs)"

section \<open>The routing engine\<close>

text \<open>
  The native MIDI transport is outside the program. The program sees it through the
  number of ports and the name of the port at an index, for the outputs and for the
  inputs; what it does to the transport is recorded as a trace of events.
\<close>

record transport =
  outputPortCount :: nat
  outputPortName :: "nat \<Rightarrow> string"
  inputPortCount :: nat
  inputPortName :: "nat \<Rightarrow> string"

datatype event =
    Open_output nat
  | Open_input nat
  | Listen nat
  | Close_input nat
  | Close_output

text \<open>
  The variables of the module \<open>utils\<close>. An input instance is identified by the index of
  the port it has opened. \<open>transformMidi\<close> holds the table captured by the transformer
  closure (\<open>None\<close> for the initial function that does nothing). \<open>output\<close> is the variable
  of the setter \<open>setOutput\<close> below, unset at first; the module at hand has no such
  variable.
\<close>

record module_state =
  transformMidi :: "split_table option"
  inputInstances :: "nat list"
  "output" :: "nat option"
  cleanupCalled :: bool

definition initial_state :: module_state where
  "initial_state =
     \<lparr>transformMidi = None, inputInstances = [], output = None, cleanupCalled = False\<rparr>"

definition setMidiTransformer :: "split_table \<Rightarrow> module_state \<Rightarrow> module_state" where
  "setMidiTransformer table s = s\<lparr>transformMidi := Some table\<rparr>"

definition setInputs :: "nat list \<Rightarrow> module_state \<Rightarrow> module_state" where
  "setInputs inputsList s = s\<lparr>inputInstances := inputsList\<rparr>"

text \<open>
  Modelled from the spec: the setter \<open>setOutput\<close>, with the variable it assigns.
  \<open>execute\<close> imports \<open>setOutput\<close> from the module \<open>utils\<close> and calls it with the output it
  has just opened, but the revision of the module at hand neither defines nor exports
  it. The specification lists the current output handle among the module-level state,
  next to the list of input handles and the shutdown-once flag.
\<close>

definition setOutput :: "nat \<Rightarrow> module_state \<Rightarrow> module_state" where
  "setOutput out s = s\<lparr>output := Some out\<rparr>"

text \<open>
  How a call ends: it returns a value, it ends the process through \<open>process.exit\<close>
  (with the code given, if any), or it throws.
\<close>

datatype outcome = Returned jsval | Exited "int option" | Threw js_error

text \<open>
  \<open>setupMidiInput(portIndex, output, ...exclusions)\<close>: the instance, or \<open>null\<close> for an
  excluded port, with the events caused.
\<close>

definition setupMidiInput ::
  "transport \<Rightarrow> nat \<Rightarrow> string list \<Rightarrow> js_error + nat option \<times> event list" where
  "setupMidiInput tr portIndex exclusions =
     (let portName = inputPortName tr portIndex
      in case isExcluded portName exclusions of
           Inl err \<Rightarrow> Inl err
         | Inr excluded \<Rightarrow>
             if excluded then Inr (None, [])
             else Inr (Some portIndex, [Open_input portIndex, Listen portIndex]))"

text \<open>
  The search for the virtual output:
  \<open>for (let i = 0; i < output.getPortCount(); i++) if (output.getPortName(i) == vOutPortName) vOutPortIndex = i\<close>
\<close>

function locate_output :: "transport \<Rightarrow> string \<Rightarrow> nat \<Rightarrow> nat option \<Rightarrow> nat option" where
  "locate_output tr vOutPortName i vOutPortIndex =
     (if i < outputPortCount tr
      then locate_output tr vOutPortName (i + 1)
             (if outputPortName tr i = vOutPortName then Some i else vOutPortIndex)
      else vOutPortIndex)"
  by pat_completeness auto
termination
  by (relation "measure (\<lambda>(tr, vOutPortName, i, vOutPortIndex). outputPortCount tr - i)") auto

declare locate_output.simps [simp del]

text \<open>
  The loop over the input ports, on the instances collected so far (the local list
  \<open>inputInstances\<close> of \<open>execute\<close>) and the events caused so far. An exception ends it; the events caused before it have happened.
\<close>

function attach_inputs ::
  "transport \<Rightarrow> string list \<Rightarrow> nat \<Rightarrow> nat list \<Rightarrow> event list
     \<Rightarrow> (js_error + nat list) \<times> event list" where
  "attach_inputs tr exclusions i instances trace =
     (if i < inputPortCount tr then
        (case setupMidiInput tr i exclusions of
           Inl err \<Rightarrow> (Inl err, trace)
         | Inr (inputInstance, events) \<Rightarrow>
             attach_inputs tr exclusions (i + 1)
               (case inputInstance of
                  None \<Rightarrow> instances
                | Some input \<Rightarrow> instances @ [input])
               (trace @ events))
      else (Inr instances, trace))"
  by pat_completeness auto
termination
  by (relation "measure (\<lambda>(tr, exclusions, i, instances, trace). inputPortCount tr - i)")
     auto

declare attach_inputs.simps [simp del]

text \<open>
  The body of \<open>execute\<close> once the transformer is installed: find and open the virtual
  output or leave with code 2, then listen to every input port that is not excluded.
  The virtual output's name is put in front of the user's exclusion patterns.
\<close>

definition connect_and_listen ::
  "string \<Rightarrow> string list \<Rightarrow> transport \<Rightarrow> module_state \<Rightarrow> outcome \<times> module_state \<times> event list"
where
  "connect_and_listen vOutPortName inputPortsExclusions tr s =
     (case locate_output tr vOutPortName 0 None of
        None \<Rightarrow> (Exited (Some 2), s, [])
      | Some vOutPortIndex \<Rightarrow>
          (let s' = setOutput vOutPortIndex s
           in case attach_inputs tr (vOutPortName # inputPortsExclusions) 0 []
                     [Open_output vOutPortIndex] of
                (Inl err, trace) \<Rightarrow> (Threw err, s', trace)
              | (Inr instances, trace) \<Rightarrow>
                  if instances = [] then (Returned (JNum 1), s', trace)
                  else (Returned (JNum 3), setInputs instances s', trace)))"

text \<open>
  The configuration as \<open>execute\<close> reads it; a configuration without exclusions has the
  empty list. The \<open>debug\<close> flag only switches the verbosity of the monitoring function
  and is left out, as are the events given to that function.
\<close>

record input_data =
  virtualOutputName :: string
  splitTable :: jsval
  exclusionsList :: "string list"

definition execute ::
  "input_data \<Rightarrow> transport \<Rightarrow> module_state \<Rightarrow> outcome \<times> module_state \<times> event list" where
  "execute inputData tr s =
     (let vOutPortName = virtualOutputName inputData;
          splitDefinitions =
            (if truthy (splitTable inputData) then splitTable inputData else JArr []);
          inputPortsExclusions = exclusionsList inputData
      in case buildSplitTable splitDefinitions of
           Inl err \<Rightarrow> (Threw err, s, [])
         | Inr (table, log) \<Rightarrow>
             connect_and_listen vOutPortName inputPortsExclusions tr
               (setMidiTransformer table s))"

text \<open>
  \<open>cleanup\<close>, as the module at hand has it: nothing on a second call; otherwise the flag
  is raised and every input instance is closed. The next statement is
  \<open>output.closePort()\<close>, and the module declares no \<open>output\<close>: it declares
  \<open>transformMidi\<close>, \<open>inputInstances\<close> and \<open>cleanupCalled\<close> only, and exports no setter for
  an output. Reading the undeclared name throws a ReferenceError, so the call ends
  there, before the output is closed and before \<open>process.exit()\<close>.
\<close>

definition cleanup :: "module_state \<Rightarrow> outcome \<times> module_state \<times> event list" where
  "cleanup s =
     (if cleanupCalled s then (Returned JUndefined, s, [])
      else
        (let s' = s\<lparr>cleanupCalled := True\<rparr>;
             closed = map Close_input (inputInstances s)
         in (Threw ReferenceError, s', closed)))"

section \<open>Sample data\<close>

text \<open>
  The range definition of the documentation's example, notes 60 to 63 on channel 3, and
  a transport with one output port, which does not have the name \<open>X\<close>, and two input
  ports, the second of which has.
\<close>

definition sample_range :: jsval where
  "sample_range =
     JObj [(''type'', JStr ''range''), (''midiFrom'', JNum 60), (''midiTo'', JNum 63),
           (''channel'', JNum 3)]"

definition sample_transport :: transport where
  "sample_transport =
     \<lparr>outputPortCount = 1, outputPortName = (\<lambda>i. ''Y''),
      inputPortCount = 2, inputPortName = (\<lambda>i. if i = 0 then ''Keyboard'' else ''X'')\<rparr>"

section \<open>Bit arithmetic of the status byte\<close>

lemma ToInt32_small: "- (2 ^ 31) \<le> n \<Longrightarrow> n < 2 ^ 31 \<Longrightarrow> ToInt32 n = n"
  by (simp add: ToInt32_def signed_take_bit_int_eq_self)

lemma js_and_small:
  "- (2 ^ 31) \<le> a \<Longrightarrow> a < 2 ^ 31 \<Longrightarrow> - (2 ^ 31) \<le> b \<Longrightarrow> b < 2 ^ 31 \<Longrightarrow> js_and a b = a AND b"
  by (simp add: js_and_def ToInt32_small)

lemma js_or_small:
  "- (2 ^ 31) \<le> a \<Longrightarrow> a < 2 ^ 31 \<Longrightarrow> - (2 ^ 31) \<le> b \<Longrightarrow> b < 2 ^ 31 \<Longrightarrow> js_or a b = a OR b"
  by (simp add: js_or_def ToInt32_small)

lemma nibble_and_240:
  assumes "0 \<le> k" "k < 16"
  shows "(k::int) AND 240 = 0"
proof -
  from assms have "take_bit 4 k = k" by (simp add: take_bit_int_eq_self)
  then have "k = k AND 15" by (simp add: take_bit_eq_mask mask_eq_exp_minus_1)
  then have "k AND 240 = k AND (15 AND 240)" by (metis and.assoc)
  then show ?thesis by simp
qed

lemma and_240_byte:
  assumes "0 \<le> s" "s < 256"
  shows "(s::int) AND 240 = s - s mod 16"
proof -
  have lo: "s AND 15 = s mod 16"
    using take_bit_eq_mask [of 4 s] by (simp add: mask_eq_exp_minus_1 take_bit_eq_mod)
  from assms have "take_bit 8 s = s" by (simp add: take_bit_int_eq_self)
  then have "s = s AND 255" by (simp add: take_bit_eq_mask mask_eq_exp_minus_1)
  also have "(255::int) = 240 OR 15" by simp
  also have "s AND (240 OR 15) = (s AND 240) OR (s AND 15)" by (rule bit.conj_disj_distrib)
  also have "\<dots> = (s AND 240) + (s AND 15)"
  proof (rule disjunctive_add_eq_or [symmetric])
    have "(s AND 240) AND (s AND 15) = (s AND s) AND (240 AND 15)"
      by (simp only: and.assoc and.left_commute and.commute)
    then show "(s AND 240) AND (s AND 15) = 0" by simp
  qed
  finally show ?thesis using lo by simp
qed

lemma or_nibble_plus:
  assumes "0 \<le> k" "k < 16"
  shows "(s AND 240) OR k = (s AND 240) + (k::int)"
proof (rule disjunctive_add_eq_or [symmetric])
  have "(s AND 240) AND k = s AND (k AND 240)" by (simp add: ac_simps)
  then show "(s AND 240) AND k = 0" using nibble_and_240 [OF assms] by simp
qed

lemma high_nibble_kept:
  assumes "0 \<le> k" "k < 16"
  shows "((s AND 240) OR k) AND 240 = (s::int) AND 240"
proof -
  have "((s AND 240) OR k) AND 240 = ((s AND 240) AND 240) OR (k AND 240)"
    by (rule bit.conj_disj_distrib2)
  also have "(s AND 240) AND 240 = s AND 240" by (simp add: and.assoc)
  finally show ?thesis using nibble_and_240 [OF assms] by simp
qed

lemma new_status_bits:
  assumes "128 \<le> status" "status \<le> 159" "1 \<le> channel" "channel \<le> 16"
  shows "js_or (js_and status 240) (channel - 1) = (status AND 240) OR (channel - 1)"
proof -
  have a: "js_and status 240 = status AND 240" using assms by (simp add: js_and_small)
  have b: "status AND 240 = status - status mod 16" using assms by (simp add: and_240_byte)
  have "0 \<le> status mod 16" "status mod 16 < 16" by simp_all
  then have d: "0 \<le> status AND 240" "status AND 240 \<le> 159" using assms b by linarith+
  have "- (2 ^ 31) \<le> (0::int)" "(159::int) < 2 ^ 31" by simp_all
  with d have c: "- (2 ^ 31) \<le> status AND 240" "status AND 240 < 2 ^ 31" by linarith+
  show ?thesis unfolding a using c assms by (simp add: js_or_small)
qed

lemma new_status_value:
  assumes "128 \<le> status" "status \<le> 159" "1 \<le> channel" "channel \<le> 16"
  shows "js_or (js_and status 240) (channel - 1) = status - status mod 16 + (channel - 1)"
proof -
  have "0 \<le> channel - 1" "channel - 1 < 16" using assms by simp_all
  then have "(status AND 240) OR (channel - 1) = (status AND 240) + (channel - 1)"
    by (rule or_nibble_plus)
  moreover have "status AND 240 = status - status mod 16"
    using assms by (simp add: and_240_byte)
  ultimately show ?thesis using assms by (simp add: new_status_bits)
qed

section \<open>Properties of the transformer\<close>

text \<open>
  Claim C1. For every split table and every message with a status between 128 and 159
  whose note has an entry \<open>channel\<close> in the table, \<open>transformMidiSrc\<close> returns the status
  \<open>(status & 0xf0) | (channel - 1)\<close> with the note and the velocity as they came. The
  cleared low nibble is \<open>status - status mod 16\<close>, and for a channel between 1 and 16
  the new status is that number plus \<open>channel - 1\<close>. With 3 stored under note 60, the
  message (144, 60, 100) becomes (146, 60, 100).
\<close>

theorem transform_reroutes:
  assumes "128 \<le> status" "status \<le> 159" "table note = Some channel"
  shows "transformMidiSrc (Some table) deltaTime [Num status, Num note, velocity]
           = [Num (js_or (js_and status 240) (channel - 1)), Num note, velocity]
         \<and> js_and status 240 = status - status mod 16
         \<and> (1 \<le> channel \<and> channel \<le> 16 \<longrightarrow>
              js_or (js_and status 240) (channel - 1) = status - status mod 16 + (channel - 1))"
proof (intro conjI impI)
  show "transformMidiSrc (Some table) deltaTime [Num status, Num note, velocity]
           = [Num (js_or (js_and status 240) (channel - 1)), Num note, velocity]"
    using assms by (auto simp: transformMidiSrc_def element_def Let_def)
  show "js_and status 240 = status - status mod 16"
    using assms by (simp add: js_and_small and_240_byte)
  show "js_or (js_and status 240) (channel - 1) = status - status mod 16 + (channel - 1)"
    if "1 \<le> channel \<and> channel \<le> 16"
    using that assms by (simp add: new_status_value)
qed

theorem transform_reroutes_witness:
  "(128::int) \<le> 144 \<and> (144::int) \<le> 159 \<and> [60 \<mapsto> 3] (60::int) = Some (3::int)
   \<and> transformMidiSrc (Some [60 \<mapsto> 3]) () [Num 144, Num 60, Num 100]
       = [Num 146, Num 60, Num 100]"
  using transform_reroutes [of 144 "[60 \<mapsto> 3]" 60 3 "()" "Num 100"]
  by (simp add: js_or_def js_and_def ToInt32_def)

text \<open>
  Claim C7. A message whose status is below 128 or above 159 comes back unchanged, for
  every table (also a missing one), every note, every velocity and every length of the
  message.
\<close>

theorem transform_pass_through:
  assumes "status < 128 \<or> 159 < status"
  shows "transformMidiSrc tbl deltaTime (Num status # rest) = Num status # rest"
  using assms by (auto simp: transformMidiSrc_def element_def Let_def split: option.splits)

theorem transform_pass_through_witness:
  "((176::int) < 128 \<or> (159::int) < 176)
   \<and> transformMidiSrc (Some [7 \<mapsto> 3]) () [Num 176, Num 7, Num 100]
       = [Num 176, Num 7, Num 100]"
  using transform_pass_through [of 176 "Some [7 \<mapsto> 3]" "()" "[Num 7, Num 100]"] by simp

section \<open>Properties of the split table compiler\<close>

lemma range_loop_eq:
  "range_loop midi midiTo channel tbl =
     (\<lambda>n. if midi \<le> n \<and> n \<le> midiTo then Some channel else tbl n)"
proof (induction midi midiTo channel tbl rule: range_loop.induct)
  case (1 midi midiTo channel tbl)
  show ?case
  proof (cases "midi \<le> midiTo")
    case True
    then show ?thesis
      by (subst range_loop.simps) (auto simp: "1.IH" fun_eq_iff)
  next
    case False
    then show ?thesis
      by (subst range_loop.simps) (auto simp: fun_eq_iff)
  qed
qed

lemma enumeration_loop_eq:
  "enumeration_loop ms channel tbl =
     (\<lambda>n. if n \<in> set ms then Some channel else tbl n)"
  by (induction ms arbitrary: tbl) (auto simp: fun_eq_iff)

lemma those_numbers: "those (map (as_number \<circ> JNum) ms) = Some ms"
  by (induction ms) auto

text \<open>A valid definition is accepted without a diagnostic and writes its channel on the notes it covers.\<close>

lemma apply_valid_definition:
  assumes "represents j d" "valid d"
  shows "apply_definition j index (tbl, log) =
           Inr (\<lambda>n. if covers d n then Some (channel_of d) else tbl n, log)"
proof (cases j)
  case (JObj props)
  show ?thesis
  proof (cases d)
    case (Range a b c)
    with assms JObj show ?thesis
      by (simp add: apply_definition.simps field_def checked_range_def range_loop_eq
            cong: if_cong)
  next
    case (Enumeration ms c)
    with assms JObj show ?thesis
      by (simp add: apply_definition.simps field_def checked_enumeration_def those_numbers
            enumeration_loop_eq cong: if_cong)
  qed
qed (use assms in simp_all)

text \<open>
  Claim C2. For integers \<open>0 \<le> a \<le> b \<le> 127\<close> and \<open>1 \<le> c \<le> 16\<close>, compiling the list
  that holds just the range definition from \<open>a\<close> to \<open>b\<close> on channel \<open>c\<close> returns, with no
  diagnostic, a table that maps every note of \<open>[a, b]\<close> to \<open>c\<close> and has no entry for any
  other note.
\<close>

theorem compile_single_range:
  assumes "represents j (Range a b c)" "0 \<le> a" "a \<le> b" "b \<le> 127" "1 \<le> c" "c \<le> 16"
  shows "\<exists>table. buildSplitTable (JArr [j]) = Inr (table, [])
           \<and> (\<forall>n. a \<le> n \<and> n \<le> b \<longrightarrow> table n = Some c)
           \<and> (\<forall>n. n < a \<or> b < n \<longrightarrow> table n = None)"
  using assms by (simp add: buildSplitTable_def apply_valid_definition cong: if_cong)

theorem compile_single_range_witness:
  "represents sample_range (Range 60 63 3)
   \<and> (0::int) \<le> 60 \<and> (60::int) \<le> 63 \<and> (63::int) \<le> 127 \<and> (1::int) \<le> 3 \<and> (3::int) \<le> 16
   \<and> (\<exists>table. buildSplitTable (JArr [sample_range]) = Inr (table, [])
        \<and> (\<forall>n. 60 \<le> n \<and> n \<le> 63 \<longrightarrow> table n = Some 3)
        \<and> (\<forall>n. n < 60 \<or> 63 < n \<longrightarrow> table n = None))"
  using compile_single_range [of sample_range 60 63 3]
  by (simp add: sample_range_def)

text \<open>
  Claim C3. When two valid definitions \<open>d1\<close> and \<open>d2\<close> (each a range or an enumeration)
  both cover the note \<open>n\<close>, compiling the list \<open>[d1, d2]\<close> returns a table that maps \<open>n\<close>
  to the channel of \<open>d2\<close>.
\<close>

theorem overwrite_law:
  assumes "represents j1 d1" "valid d1" "covers d1 n"
      and "represents j2 d2" "valid d2" "covers d2 n"
  shows "\<exists>table. buildSplitTable (JArr [j1, j2]) = Inr (table, [])
           \<and> table n = Some (channel_of d2)"
  using assms by (simp add: buildSplitTable_def apply_valid_definition)

theorem overwrite_law_witness:
  "represents sample_range (Range 60 63 3) \<and> valid (Range 60 63 3) \<and> covers (Range 60 63 3) 61
   \<and> represents (JObj [(''type'', JStr ''enumeration''), (''midi'', JArr [JNum 61, JNum 62]),
                        (''channel'', JNum 2)]) (Enumeration [61, 62] 2)
   \<and> valid (Enumeration [61, 62] 2) \<and> covers (Enumeration [61, 62] 2) 61
   \<and> (\<exists>table. buildSplitTable
          (JArr [sample_range,
                 JObj [(''type'', JStr ''enumeration''), (''midi'', JArr [JNum 61, JNum 62]),
                       (''channel'', JNum 2)]]) = Inr (table, [])
        \<and> table 61 = Some 2)"
  using overwrite_law [of sample_range "Range 60 63 3" 61
          "JObj [(''type'', JStr ''enumeration''), (''midi'', JArr [JNum 61, JNum 62]),
                 (''channel'', JNum 2)]" "Enumeration [61, 62] 2"]
  by (simp add: sample_range_def)

text \<open>
  Claim C4 says that \<open>buildSplitTable\<close> never throws and that a malformed entry is
  dropped with a diagnostic while the rest of the list is processed. An entry that is
  \<open>null\<close> is not dropped: reading its \<open>type\<close> throws a TypeError, which leaves the
  function, so the valid range after it is never compiled and no table is returned.
\<close>

theorem null_entry_throws:
  "buildSplitTable (JArr [JNull]) = Inl TypeError
   \<and> buildSplitTable (JArr [JNull, sample_range]) = Inl TypeError"
  by (simp add: buildSplitTable_def apply_definition.simps)

text \<open>
  For comparison, the behaviour the compiler has on the malformed entries it does check:
  a string in place of a definition, a range with its bounds swapped and an enumeration
  with a note above 127 are dropped with a diagnostic each, and the valid range that
  follows them is compiled. An empty list and a value that is no list give the empty
  table and one diagnostic.
\<close>

lemma malformed_entries_skipped:
  "\<exists>table. buildSplitTable
      (JArr [JStr ''not a list'',
             JObj [(''type'', JStr ''range''), (''midiFrom'', JNum 63), (''midiTo'', JNum 60),
                   (''channel'', JNum 3)],
             JObj [(''type'', JStr ''enumeration''), (''midi'', JArr [JNum 1, JNum 128]),
                   (''channel'', JNum 2)],
             sample_range])
      = Inr (table,
          [Unknown_type 0 (JStr ''not a list''),
           Invalid_range 1 (JObj [(''type'', JStr ''range''), (''midiFrom'', JNum 63),
                                 (''midiTo'', JNum 60), (''channel'', JNum 3)]),
           Invalid_values 2 (JObj [(''type'', JStr ''enumeration''),
                                  (''midi'', JArr [JNum 1, JNum 128]), (''channel'', JNum 2)])])
    \<and> (\<forall>n. table n = (if 60 \<le> n \<and> n \<le> 63 then Some 3 else None))"
  by (simp add: buildSplitTable_def apply_definition.simps field_def checked_range_def
        checked_enumeration_def range_loop_eq sample_range_def)

lemma no_list_gives_empty_table:
  "buildSplitTable (JArr []) = Inr (Map.empty, [Invalid_definitions])"
  "buildSplitTable (JStr ''not a list'') = Inr (Map.empty, [Invalid_definitions])"
  "buildSplitTable JNull = Inr (Map.empty, [Invalid_definitions])"
  by (simp_all add: buildSplitTable_def)

subsection \<open>Every compiled channel lies between 1 and 16\<close>

lemma apply_definition_channels:
  assumes "apply_definition definition index (t, log) = Inr (t', log')"
      and "\<forall>n c. t n = Some c \<longrightarrow> 1 \<le> c \<and> c \<le> 16"
  shows "\<forall>n c. t' n = Some c \<longrightarrow> 1 \<le> c \<and> c \<le> 16"
  using assms
  by (auto simp: apply_definition.simps checked_range_def checked_enumeration_def
        range_loop_eq enumeration_loop_eq
      split: sum.splits if_splits option.splits jsval.splits)

lemma for_each_channels:
  assumes "for_each ds index (t, log) = Inr (t', log')"
      and "\<forall>n c. t n = Some c \<longrightarrow> 1 \<le> c \<and> c \<le> 16"
  shows "\<forall>n c. t' n = Some c \<longrightarrow> 1 \<le> c \<and> c \<le> 16"
  using assms
proof (induction ds arbitrary: index t log)
  case Nil
  then show ?case by simp
next
  case (Cons d ds)
  from Cons.prems(1) obtain t1 log1
    where step: "apply_definition d index (t, log) = Inr (t1, log1)"
      and rest: "for_each ds (index + 1) (t1, log1) = Inr (t', log')"
    by (auto split: sum.splits)
  from apply_definition_channels [OF step Cons.prems(2)]
  show ?case by (rule Cons.IH [OF rest])
qed

lemma buildSplitTable_channels:
  assumes "buildSplitTable splitDefinitions = Inr (table, log)" "table n = Some c"
  shows "1 \<le> c \<and> c \<le> 16"
proof (cases "\<exists>ds. splitDefinitions = JArr ds \<and> ds \<noteq> []")
  case True
  then obtain ds where "splitDefinitions = JArr ds" "ds \<noteq> []" by blast
  with assms(1) have "for_each ds 0 (Map.empty, []) = Inr (table, log)"
    by (simp add: buildSplitTable_def)
  from for_each_channels [OF this] assms(2) show ?thesis by simp
next
  case False
  with assms(1) have "table = Map.empty"
    by (cases splitDefinitions) (auto simp: buildSplitTable_def split: if_splits)
  with assms(2) show ?thesis by simp
qed

text \<open>
  Claim C10. For every table returned by \<open>buildSplitTable\<close> and every message, the status
  of the transformed message has the high nibble of the original status: the two agree
  under \<open>AND 240\<close>, that is they have the same quotient by 16, so a Note On (144 to 159)
  stays a Note On and a Note Off (128 to 143) stays a Note Off. A message with no status
  comes back unchanged.
\<close>

theorem message_kind_preserved:
  assumes "buildSplitTable splitDefinitions = Inr (table, log)"
  shows "(element message 0 = Undefined \<longrightarrow>
            transformMidiSrc (Some table) deltaTime message = message)
       \<and> (\<forall>status. element message 0 = Num status \<longrightarrow>
            (\<exists>status'. element (transformMidiSrc (Some table) deltaTime message) 0 = Num status'
                \<and> status' AND 240 = status AND 240
                \<and> status' div 16 = status div 16))"
proof (intro conjI impI allI)
  assume "element message 0 = Undefined"
  then show "transformMidiSrc (Some table) deltaTime message = message"
    by (simp add: transformMidiSrc_def Let_def)
next
  fix status
  assume st: "element message 0 = Num status"
  let ?out = "transformMidiSrc (Some table) deltaTime message"
  show "\<exists>status'. element ?out 0 = Num status'
          \<and> status' AND 240 = status AND 240 \<and> status' div 16 = status div 16"
  proof (cases "?out = message")
    case True
    with st show ?thesis by simp
  next
    case False
    then obtain channel
      where ch: "own_property table (element message 1) = Some channel"
        and rng: "128 \<le> status" "status \<le> 159"
        and out: "?out = [Num (js_or (js_and status 240) (channel - 1)),
                          element message 1, element message 2]"
      using st by (auto simp: transformMidiSrc_def Let_def split: option.splits if_splits)
    from ch obtain n where "table n = Some channel"
      by (cases "element message 1") auto
    from buildSplitTable_channels [OF assms this]
    have c: "1 \<le> channel" "channel \<le> 16" by simp_all
    have k: "0 \<le> channel - 1" "channel - 1 < 16" using c by simp_all
    have bits: "js_or (js_and status 240) (channel - 1) = (status AND 240) OR (channel - 1)"
      using rng c by (rule new_status_bits)
    have val: "js_or (js_and status 240) (channel - 1) = status - status mod 16 + (channel - 1)"
      using rng c by (rule new_status_value)
    have "(status - status mod 16 + (channel - 1)) div 16 = status div 16"
      using k by presburger
    then show ?thesis
      using out bits val high_nibble_kept [OF k, of status] by (simp add: element_def)
  qed
qed

theorem message_kind_preserved_witness:
  "buildSplitTable (JArr [sample_range])
     = Inr (\<lambda>n. if 60 \<le> n \<and> n \<le> 63 then Some 3 else None, [])
   \<and> element [Num 144, Num 61, Num 90] 0 = Num 144
   \<and> transformMidiSrc (Some (\<lambda>n. if 60 \<le> n \<and> n \<le> 63 then Some 3 else None)) ()
         [Num 144, Num 61, Num 90] = [Num 146, Num 61, Num 90]
   \<and> (\<exists>status'.
        element (transformMidiSrc (Some (\<lambda>n. if 60 \<le> n \<and> n \<le> 63 then Some 3 else None)) ()
                   [Num 144, Num 61, Num 90]) 0 = Num status'
        \<and> status' AND 240 = 144 AND 240 \<and> status' div 16 = 144 div 16)"
proof -
  have h: "buildSplitTable (JArr [sample_range])
     = Inr (\<lambda>n. if 60 \<le> n \<and> n \<le> 63 then Some 3 else None, [])"
    by (simp add: buildSplitTable_def apply_definition.simps field_def checked_range_def
          range_loop_eq sample_range_def)
  have e: "element [Num 144, Num 61, Num 90] 0 = Num 144"
    by (simp add: element_def)
  have t: "transformMidiSrc (Some (\<lambda>n. if 60 \<le> n \<and> n \<le> 63 then Some 3 else None)) ()
         [Num 144, Num 61, Num 90] = [Num 146, Num 61, Num 90]"
    by (simp add: transformMidiSrc_def element_def js_or_def js_and_def ToInt32_def)
  from message_kind_preserved [OF h, of "[Num 144, Num 61, Num 90]" "()"] e
  show ?thesis using h t by blast
qed

section \<open>Properties of the wildcard matcher\<close>

lemma replace_each_Nil [simp]: "replace_each P f [] = []"
  by (simp add: replace_each_def)

lemma replace_each_append [simp]:
  "replace_each P f (xs @ ys) = replace_each P f xs @ replace_each P f ys"
  by (simp add: replace_each_def)

lemma replace_each_Cons:
  "replace_each P f (x # xs) = (if P x then f x else [x]) @ replace_each P f xs"
  by (simp add: replace_each_def)

lemma escape_pattern_Nil [simp]: "escape_pattern [] = []"
  by (simp add: escape_pattern_def)

text \<open>The three passes together act on each character of the pattern by itself.\<close>

lemma escape_pattern_Cons: "escape_pattern (c # cs) = escaped_char c @ escape_pattern cs"
  by (simp add: escape_pattern_def escaped_char_def replace_each_Cons escaped_class_def
        backslash_def)

lemma tokens_escaped_char:
  "tokens (escaped_char c @ rest) = map_option ((@) (char_tokens c)) (tokens rest)"
  by (cases "tokens rest")
     (auto simp: escaped_char_def char_tokens_def escaped_class_def syntax_characters_def
        backslash_def)

lemma tokens_escape_pattern:
  "tokens (escape_pattern p @ ''$'') = Some (concat (map char_tokens p) @ [TEnd])"
  by (induction p) (simp_all add: escape_pattern_Cons tokens_escaped_char backslash_def)

lemma terms_Once:
  "ts \<noteq> [] \<Longrightarrow> hd ts \<noteq> TStar \<Longrightarrow> terms (TAtom a # ts) = map_option ((#) (Once a)) (terms ts)"
  by (cases ts; cases "hd ts") auto

lemma hd_char_tokens: "hd (concat (map char_tokens p) @ [TEnd]) \<noteq> TStar"
  by (cases p) (auto simp: char_tokens_def)

lemma terms_char_step:
  assumes "ts \<noteq> []" "hd ts \<noteq> TStar"
  shows "terms (char_tokens c @ ts) = map_option ((#) (wildcard_term c)) (terms ts)"
  using terms_Once [OF assms] by (simp add: char_tokens_def wildcard_term_def)

lemma terms_char_tokens:
  "terms (concat (map char_tokens p) @ [TEnd]) = Some (map wildcard_term p)"
proof (induction p)
  case Nil
  then show ?case by simp
next
  case (Cons c p)
  have "terms (char_tokens c @ (concat (map char_tokens p) @ [TEnd]))
          = map_option ((#) (wildcard_term c)) (terms (concat (map char_tokens p) @ [TEnd]))"
    by (rule terms_char_step) (simp, rule hd_char_tokens)
  with Cons show ?case by simp
qed

text \<open>
  Every string is a valid pattern: the constructor accepts the source made from it, and
  the expression has one term for each character of the pattern.
\<close>

lemma wildcardToRegex_eq: "wildcardToRegex pattern = Inr (map wildcard_term pattern)"
  by (simp add: wildcardToRegex_def RegExp_def tokens_escape_pattern terms_char_tokens)

lemma matches_eq: "matches pattern candidate = Inr (test (map wildcard_term pattern) candidate)"
  by (simp add: matches_def wildcardToRegex_eq)

lemma isExcluded_eq:
  "isExcluded portName exclusions =
     Inr (\<exists>pattern \<in> set exclusions. test (map wildcard_term pattern) portName)"
  by (induction exclusions) (auto simp: matches_eq)

lemma test_Star_skip: "test r s \<Longrightarrow> test (Star a # r) s"
  by (cases s) auto

text \<open>A pattern matches the string that is the pattern itself.\<close>

lemma test_self_append: "test r s \<Longrightarrow> test (map wildcard_term p @ r) (p @ s)"
  by (induction p) (auto simp: wildcard_term_def line_terminator_def intro: test_Star_skip)

lemma test_self: "test (map wildcard_term p) p"
  using test_self_append [of "[]" "[]" p] by simp

text \<open>
  On a candidate without line terminators the matcher is the specification's: whole
  string, \<open>?\<close> for one character, \<open>*\<close> for any number of characters, every other
  character (the special characters of regular expressions among them) for itself.
\<close>

lemma test_glob:
  "\<forall>c \<in> set s. \<not> line_terminator c \<Longrightarrow> test (map wildcard_term p) s = glob p s"
proof (induction p s rule: glob.induct)
  case (1 s)
  then show ?case by simp
next
  case (2 p ps)
  then show ?case by (auto simp: wildcard_term_def)
next
  case (3 p ps x xs)
  then show ?case by (auto simp: wildcard_term_def)
qed

lemma matches_glob:
  "\<forall>c \<in> set candidate. \<not> line_terminator c \<Longrightarrow> matches pattern candidate = Inr (glob pattern candidate)"
  by (simp add: matches_eq test_glob)

lemma matches_examples:
  "matches ''Akai*'' ''Akai MPK Mini'' = Inr True"
  "matches ''Alesis V??'' ''Alesis V61'' = Inr True"
  "matches ''Alesis V??'' ''Alesis V6'' = Inr False"
  "matches ''a.c'' ''abc'' = Inr False"
  "matches ''a.c'' ''a.c'' = Inr True"
  "matches ''Akai'' ''Akai MPK Mini'' = Inr False"
  by (simp_all add: matches_eq wildcard_term_def line_terminator_def)

text \<open>
  Claim C6 says that \<open>?\<close> matches exactly one arbitrary character and \<open>*\<close> zero or more
  arbitrary characters. Both are compiled to the dot, which does not match a line
  terminator: the pattern \<open>?\<close> does not match the string that is one line feed, and
  \<open>A*\<close> does not match the three characters A, line feed, B, while in the
  specification's reading (\<open>glob\<close>) both match.
\<close>

theorem wildcards_miss_line_terminators:
  "matches ''?'' [CHR 0x0A] = Inr False
   \<and> glob ''?'' [CHR 0x0A]
   \<and> matches ''A*'' [CHR ''A'', CHR 0x0A, CHR ''B''] = Inr False
   \<and> glob ''A*'' [CHR ''A'', CHR 0x0A, CHR ''B'']"
  by (simp add: matches_eq wildcard_term_def line_terminator_def)

section \<open>Properties of the routing engine\<close>

lemma locate_output_None:
  "locate_output tr v i acc = None \<longleftrightarrow>
     acc = None \<and> (\<forall>j. i \<le> j \<and> j < outputPortCount tr \<longrightarrow> outputPortName tr j \<noteq> v)"
proof (induction tr v i acc rule: locate_output.induct)
  case (1 tr v i acc)
  show ?case
  proof (cases "i < outputPortCount tr")
    case True
    let ?acc = "if outputPortName tr i = v then Some i else acc"
    have unfold: "locate_output tr v i acc = locate_output tr v (i + 1) ?acc"
      using True by (subst locate_output.simps) simp
    have IH: "locate_output tr v (i + 1) ?acc = None \<longleftrightarrow>
        ?acc = None \<and> (\<forall>j. i + 1 \<le> j \<and> j < outputPortCount tr \<longrightarrow> outputPortName tr j \<noteq> v)"
      by (rule "1.IH" [OF True])
    have "(\<forall>j. i \<le> j \<and> j < outputPortCount tr \<longrightarrow> outputPortName tr j \<noteq> v) \<longleftrightarrow>
          outputPortName tr i \<noteq> v \<and>
          (\<forall>j. i + 1 \<le> j \<and> j < outputPortCount tr \<longrightarrow> outputPortName tr j \<noteq> v)"
    proof (intro iffI conjI allI impI)
      assume all: "\<forall>j. i \<le> j \<and> j < outputPortCount tr \<longrightarrow> outputPortName tr j \<noteq> v"
      from all True show "outputPortName tr i \<noteq> v" by simp
      fix j assume "i + 1 \<le> j \<and> j < outputPortCount tr"
      with all show "outputPortName tr j \<noteq> v" by simp
    next
      fix j
      assume h: "outputPortName tr i \<noteq> v \<and>
          (\<forall>j. i + 1 \<le> j \<and> j < outputPortCount tr \<longrightarrow> outputPortName tr j \<noteq> v)"
        and j: "i \<le> j \<and> j < outputPortCount tr"
      show "outputPortName tr j \<noteq> v"
      proof (cases "j = i")
        case True
        with h show ?thesis by simp
      next
        case False
        with j have "i + 1 \<le> j \<and> j < outputPortCount tr" by simp
        with h show ?thesis by blast
      qed
    qed
    with unfold IH show ?thesis by auto
  next
    case False
    then show ?thesis by (subst locate_output.simps) auto
  qed
qed

lemma locate_output_Some:
  assumes "locate_output tr v i acc = Some k"
      and "\<forall>k. acc = Some k \<longrightarrow> k < outputPortCount tr \<and> outputPortName tr k = v"
  shows "k < outputPortCount tr \<and> outputPortName tr k = v"
  using assms
proof (induction tr v i acc rule: locate_output.induct)
  case (1 tr v i acc)
  show ?case
  proof (cases "i < outputPortCount tr")
    case True
    let ?acc = "if outputPortName tr i = v then Some i else acc"
    have "locate_output tr v i acc = locate_output tr v (i + 1) ?acc"
      using True by (subst locate_output.simps) simp
    with "1.prems"(1) have step: "locate_output tr v (i + 1) ?acc = Some k" by simp
    have inv: "\<forall>k. ?acc = Some k \<longrightarrow> k < outputPortCount tr \<and> outputPortName tr k = v"
      using True "1.prems"(2) by auto
    show ?thesis by (rule "1.IH" [OF True step inv])
  next
    case False
    with "1.prems" show ?thesis by (subst (asm) locate_output.simps) auto
  qed
qed

lemma attach_inputs_trace:
  assumes "attach_inputs tr ex i inst trace = (r, trace')"
  shows "\<exists>evs. trace' = trace @ evs \<and>
           (\<forall>e \<in> set evs. \<exists>j. i \<le> j \<and> j < inputPortCount tr \<and> (e = Open_input j \<or> e = Listen j)
                \<and> isExcluded (inputPortName tr j) ex = Inr False)"
  using assms
proof (induction tr ex i inst trace rule: attach_inputs.induct)
  case (1 tr ex i inst trace)
  show ?case
  proof (cases "i < inputPortCount tr")
    case False
    with "1.prems" show ?thesis by (subst (asm) attach_inputs.simps) auto
  next
    case True
    show ?thesis
    proof (cases "setupMidiInput tr i ex")
      case (Inl err)
      with True "1.prems" show ?thesis by (subst (asm) attach_inputs.simps) auto
    next
      case (Inr res)
      obtain inst' events where res: "res = (inst', events)" by (cases res)
      from True Inr res "1.prems"
      have step: "attach_inputs tr ex (i + 1)
                    (case inst' of None \<Rightarrow> inst | Some input \<Rightarrow> inst @ [input])
                    (trace @ events) = (r, trace')"
        by (subst (asm) attach_inputs.simps) simp
      from "1.IH" [OF True Inr res [symmetric] step]
      obtain evs where evs: "trace' = (trace @ events) @ evs"
        "\<forall>e \<in> set evs. \<exists>j. i + 1 \<le> j \<and> j < inputPortCount tr \<and> (e = Open_input j \<or> e = Listen j)
                \<and> isExcluded (inputPortName tr j) ex = Inr False"
        by blast
      from Inr res have ev: "\<forall>e \<in> set events. (e = Open_input i \<or> e = Listen i)
            \<and> isExcluded (inputPortName tr i) ex = Inr False"
        by (auto simp: setupMidiInput_def Let_def isExcluded_eq split: if_splits)
      have "\<forall>e \<in> set (events @ evs). \<exists>j. i \<le> j \<and> j < inputPortCount tr \<and> (e = Open_input j \<or> e = Listen j)
                \<and> isExcluded (inputPortName tr j) ex = Inr False"
      proof
        fix e assume "e \<in> set (events @ evs)"
        then consider "e \<in> set events" | "e \<in> set evs" by auto
        then show "\<exists>j. i \<le> j \<and> j < inputPortCount tr \<and> (e = Open_input j \<or> e = Listen j)
                \<and> isExcluded (inputPortName tr j) ex = Inr False"
        proof cases
          case 1
          with ev True show ?thesis by blast
        next
          case 2
          with evs(2) obtain j where "i + 1 \<le> j" "j < inputPortCount tr"
            "e = Open_input j \<or> e = Listen j" "isExcluded (inputPortName tr j) ex = Inr False"
            by blast
          then show ?thesis by (intro exI [of _ j]) simp
        qed
      qed
      with evs(1) show ?thesis by (intro exI [of _ "events @ evs"]) simp
    qed
  qed
qed


lemma attach_inputs_instances:
  assumes "attach_inputs tr ex i inst trace = (Inr inst', trace')"
      and "\<forall>j. j \<in> set inst \<longleftrightarrow> Open_input j \<in> set trace"
  shows "\<forall>j. j \<in> set inst' \<longleftrightarrow> Open_input j \<in> set trace'"
  using assms
proof (induction tr ex i inst trace rule: attach_inputs.induct)
  case (1 tr ex i inst trace)
  show ?case
  proof (cases "i < inputPortCount tr")
    case False
    with "1.prems" show ?thesis by (subst (asm) attach_inputs.simps) auto
  next
    case True
    show ?thesis
    proof (cases "setupMidiInput tr i ex")
      case (Inl err)
      with True "1.prems" show ?thesis by (subst (asm) attach_inputs.simps) auto
    next
      case (Inr res)
      obtain inst1 events where res: "res = (inst1, events)" by (cases res)
      let ?inst = "case inst1 of None \<Rightarrow> inst | Some input \<Rightarrow> inst @ [input]"
      from True Inr res "1.prems"(1)
      have step: "attach_inputs tr ex (i + 1) ?inst (trace @ events) = (Inr inst', trace')"
        by (subst (asm) attach_inputs.simps) simp
      from Inr res "1.prems"(2)
      have inv: "\<forall>j. j \<in> set ?inst \<longleftrightarrow> Open_input j \<in> set (trace @ events)"
        by (auto simp: setupMidiInput_def Let_def isExcluded_eq split: if_splits)
      show ?thesis by (rule "1.IH" [OF True Inr res [symmetric] step inv])
    qed
  qed
qed

text \<open>
  Claim C5. For every name of the virtual output and every list of exclusion patterns,
  the empty one included, an input port with that name is excluded: \<open>isExcluded\<close> is
  true on the exclusions \<open>execute\<close> passes, \<open>setupMidiInput\<close> returns \<open>null\<close> without
  opening the port, and no run of the engine opens it or listens to it.
\<close>

theorem virtual_output_never_attached:
  assumes "inputPortName tr i = vOutPortName"
  shows "isExcluded (inputPortName tr i) (vOutPortName # exclusionPatterns) = Inr True
       \<and> setupMidiInput tr i (vOutPortName # exclusionPatterns) = Inr (None, [])
       \<and> (\<forall>result s' trace.
            connect_and_listen vOutPortName exclusionPatterns tr s = (result, s', trace) \<longrightarrow>
              Open_input i \<notin> set trace \<and> Listen i \<notin> set trace)"
proof (intro conjI allI impI)
  show ex: "isExcluded (inputPortName tr i) (vOutPortName # exclusionPatterns) = Inr True"
    using assms by (simp add: isExcluded_eq test_self)
  then show "setupMidiInput tr i (vOutPortName # exclusionPatterns) = Inr (None, [])"
    by (simp add: setupMidiInput_def)
  fix result s' trace
  assume run: "connect_and_listen vOutPortName exclusionPatterns tr s = (result, s', trace)"
  have "Open_input i \<notin> set trace \<and> Listen i \<notin> set trace"
  proof (cases "locate_output tr vOutPortName 0 None")
    case None
    with run show ?thesis by (simp add: connect_and_listen_def)
  next
    case (Some k)
    obtain r trace' where att:
      "attach_inputs tr (vOutPortName # exclusionPatterns) 0 [] [Open_output k] = (r, trace')"
      by (cases "attach_inputs tr (vOutPortName # exclusionPatterns) 0 [] [Open_output k]")
    with run Some have "trace = trace'"
      by (auto simp: connect_and_listen_def Let_def split: sum.splits if_splits)
    moreover from attach_inputs_trace [OF att] obtain evs
      where "trace' = [Open_output k] @ evs"
        and "\<forall>e \<in> set evs. \<exists>j. 0 \<le> j \<and> j < inputPortCount tr \<and> (e = Open_input j \<or> e = Listen j)
                \<and> isExcluded (inputPortName tr j) (vOutPortName # exclusionPatterns) = Inr False"
      by blast
    ultimately show ?thesis using ex by auto
  qed
  then show "Open_input i \<notin> set trace" and "Listen i \<notin> set trace" by simp_all
qed

theorem virtual_output_never_attached_witness:
  "inputPortName sample_transport 1 = ''X''
   \<and> isExcluded ''X'' [''X''] = Inr True
   \<and> setupMidiInput sample_transport 1 [''X''] = Inr (None, [])"
  using virtual_output_never_attached [of sample_transport 1 "''X''" "[]" initial_state]
  by (simp add: sample_transport_def)

text \<open>
  Claim C8. When no output port has the configured name, the engine leaves with exit
  code 2 and has opened no port: this holds for the part of \<open>execute\<close> that follows the
  compilation of the table, and \<open>execute\<close> as a whole causes no event and either exits
  with code 2 or has already thrown in the compilation. Conversely, in every run, a
  trace in which an input port is opened or listened to begins with the opening of an
  output port that has the configured name.
\<close>

theorem missing_output_is_fatal:
  "((\<forall>i < outputPortCount tr. outputPortName tr i \<noteq> virtualOutputName inputData) \<longrightarrow>
      connect_and_listen (virtualOutputName inputData) (exclusionsList inputData) tr s
        = (Exited (Some 2), s, [])
      \<and> (\<exists>result s'. execute inputData tr s = (result, s', [])
            \<and> (result = Exited (Some 2)
               \<or> (\<exists>err. result = Threw err
                     \<and> buildSplitTable (if truthy (splitTable inputData)
                                         then splitTable inputData else JArr []) = Inl err))))
   \<and> (\<forall>result s' trace i.
        connect_and_listen vOutPortName exclusions tr s = (result, s', trace)
        \<and> (Open_input i \<in> set trace \<or> Listen i \<in> set trace) \<longrightarrow>
          (\<exists>k rest. trace = Open_output k # rest \<and> k < outputPortCount tr
              \<and> outputPortName tr k = vOutPortName \<and> output s' = Some k))"
proof (intro conjI impI allI)
  assume none: "\<forall>i < outputPortCount tr. outputPortName tr i \<noteq> virtualOutputName inputData"
  then have loc: "locate_output tr (virtualOutputName inputData) 0 None = None"
    by (simp add: locate_output_None)
  then show fatal: "\<And>s. connect_and_listen (virtualOutputName inputData) (exclusionsList inputData) tr s
        = (Exited (Some 2), s, [])"
    by (simp add: connect_and_listen_def)
  show "\<exists>result s'. execute inputData tr s = (result, s', [])
            \<and> (result = Exited (Some 2)
               \<or> (\<exists>err. result = Threw err
                     \<and> buildSplitTable (if truthy (splitTable inputData)
                                         then splitTable inputData else JArr []) = Inl err))"
    by (cases "buildSplitTable (if truthy (splitTable inputData)
                                         then splitTable inputData else JArr [])")
       (auto simp: execute_def Let_def fatal)
next
  fix result s' trace i
  assume h: "connect_and_listen vOutPortName exclusions tr s = (result, s', trace)
        \<and> (Open_input i \<in> set trace \<or> Listen i \<in> set trace)"
  show "\<exists>k rest. trace = Open_output k # rest \<and> k < outputPortCount tr
              \<and> outputPortName tr k = vOutPortName \<and> output s' = Some k"
  proof (cases "locate_output tr vOutPortName 0 None")
    case None
    with h show ?thesis by (auto simp: connect_and_listen_def)
  next
    case (Some k)
    from locate_output_Some [OF Some]
    have k: "k < outputPortCount tr \<and> outputPortName tr k = vOutPortName" by simp
    obtain r trace' where att:
      "attach_inputs tr (vOutPortName # exclusions) 0 [] [Open_output k] = (r, trace')"
      by (cases "attach_inputs tr (vOutPortName # exclusions) 0 [] [Open_output k]")
    with h Some have "trace = trace'" "output s' = Some k"
      by (auto simp: connect_and_listen_def Let_def setOutput_def setInputs_def
            split: sum.splits if_splits)
    moreover from attach_inputs_trace [OF att] obtain evs
      where "trace' = [Open_output k] @ evs" by blast
    ultimately show ?thesis using k by simp
  qed
qed

theorem missing_output_is_fatal_witness:
  "outputPortCount sample_transport = 1
   \<and> outputPortName sample_transport 0 \<noteq> ''X''
   \<and> connect_and_listen ''X'' [''Ctrl*''] sample_transport initial_state
       = (Exited (Some 2), initial_state, [])
   \<and> (\<exists>s'. execute \<lparr>virtualOutputName = ''X'', splitTable = JArr [],
                      exclusionsList = [''Ctrl*'']\<rparr> sample_transport initial_state
             = (Exited (Some 2), s', []))"
  using missing_output_is_fatal [of sample_transport
          "\<lparr>virtualOutputName = ''X'', splitTable = JArr [], exclusionsList = [''Ctrl*'']\<rparr>"
          initial_state "''X''" "[''Ctrl*'']"]
  by (auto simp: buildSplitTable_def sample_transport_def)

text \<open>
  After \<open>execute\<close> has returned 3, the input instances of the module are exactly the
  input ports it has opened.
\<close>

lemma execute_input_instances:
  assumes run: "execute inputData tr s0 = (Returned (JNum 3), s, trace0)"
  shows "\<forall>j. Open_input j \<in> set trace0 \<longleftrightarrow> j \<in> set (inputInstances s)"
proof -
  from run obtain table v ex where cl:
    "connect_and_listen v ex tr (setMidiTransformer table s0) = (Returned (JNum 3), s, trace0)"
    by (auto simp: execute_def Let_def split: sum.splits prod.splits)
  then obtain k where loc: "locate_output tr v 0 None = Some k"
    by (cases "locate_output tr v 0 None") (auto simp: connect_and_listen_def)
  obtain r trace' where att: "attach_inputs tr (v # ex) 0 [] [Open_output k] = (r, trace')"
    by (cases "attach_inputs tr (v # ex) 0 [] [Open_output k]")
  with cl loc obtain inst where r: "r = Inr inst" and tr0: "trace0 = trace'"
    and s: "s = setInputs inst (setOutput k (setMidiTransformer table s0))"
    by (auto simp: connect_and_listen_def Let_def split: sum.splits if_splits)
  from att r have "attach_inputs tr (v # ex) 0 [] [Open_output k] = (Inr inst, trace')" by simp
  from attach_inputs_instances [OF this]
  have "\<forall>j. j \<in> set inst \<longleftrightarrow> Open_input j \<in> set trace'" by simp
  with s tr0 show ?thesis
    by (simp add: setInputs_def setOutput_def setMidiTransformer_def)
qed

text \<open>
  The first call of \<open>cleanup\<close> closes every input instance, in order, and then throws;
  no call closes the output or ends the process. A call after the first does nothing:
  it causes no event, changes nothing and returns without an error.
\<close>

lemma cleanup_first_call:
  "\<not> cleanupCalled s \<Longrightarrow>
     cleanup s = (Threw ReferenceError, s\<lparr>cleanupCalled := True\<rparr>,
                  map Close_input (inputInstances s))"
  by (simp add: cleanup_def)

lemma cleanup_never_closes_output:
  assumes "cleanup s = (result, s', trace)"
  shows "Close_output \<notin> set trace \<and> (\<forall>code. result \<noteq> Exited code)"
  using assms by (auto simp: cleanup_def Let_def split: if_splits)

lemma cleanup_second_call:
  assumes "cleanup s = (result, s', trace)"
  shows "cleanup s' = (Returned JUndefined, s', [])"
proof -
  from assms have "cleanupCalled s'"
    by (auto simp: cleanup_def Let_def split: if_splits)
  then show ?thesis by (simp add: cleanup_def)
qed

text \<open>
  Claim C9 says that shutdown closes every attached input port and then the output
  port, and that a second request is a no-op. The second half holds
  (\<open>cleanup_second_call\<close>). The first half fails on the output: with two inputs
  attached, the first call closes both and then throws a ReferenceError at
  \<open>output.closePort()\<close>, so the output port stays open and the process is not ended,
  whether or not an output has been opened and handed to \<open>setOutput\<close>.
\<close>

theorem cleanup_leaves_output_open:
  "cleanup \<lparr>transformMidi = None, inputInstances = [1, 2], output = Some 0,
            cleanupCalled = False\<rparr>
     = (Threw ReferenceError,
        \<lparr>transformMidi = None, inputInstances = [1, 2], output = Some 0, cleanupCalled = True\<rparr>,
        [Close_input 1, Close_input 2])
   \<and> cleanup \<lparr>transformMidi = None, inputInstances = [1, 2], output = None,
              cleanupCalled = False\<rparr>
     = (Threw ReferenceError,
        \<lparr>transformMidi = None, inputInstances = [1, 2], output = None, cleanupCalled = True\<rparr>,
        [Close_input 1, Close_input 2])"
  by (simp add: cleanup_def)

end
